theory Spec2Isabelle
  imports Complex_Main "HOL-Library.Monad_Syntax"
begin

section \<open>JavaScript numbers\<close>

text \<open>
  Every number of the program is a JavaScript Number. The model keeps the three kinds of
  special value apart from the finite ones: \<open>NaN\<close>, the two infinities, and \<open>Fin r\<close> for a
  finite value \<open>r\<close>. Arithmetic on finite values is exact real arithmetic: rounding to 53 bits,
  overflow to an infinity, underflow to zero and the sign of zero are not represented
  (the only zero is \<open>+0\<close>). The operators below follow ECMAScript on the special values.
\<close>

datatype num = NaN | NInf | Fin real | PInf

fun jneg :: "num \<Rightarrow> num" where
  "jneg NaN = NaN"
| "jneg NInf = PInf"
| "jneg PInf = NInf"
| "jneg (Fin a) = Fin (- a)"

fun jadd :: "num \<Rightarrow> num \<Rightarrow> num" where
  "jadd (Fin a) (Fin b) = Fin (a + b)"
| "jadd NaN y = NaN"
| "jadd x NaN = NaN"
| "jadd PInf NInf = NaN"
| "jadd NInf PInf = NaN"
| "jadd PInf y = PInf"
| "jadd x PInf = PInf"
| "jadd NInf y = NInf"
| "jadd x NInf = NInf"

definition jsub :: "num \<Rightarrow> num \<Rightarrow> num" where
  "jsub x y = jadd x (jneg y)"

text \<open>The sign of a number that is not NaN, as \<open>-1\<close>, \<open>0\<close> or \<open>1\<close>.\<close>

fun jsgn :: "num \<Rightarrow> real" where
  "jsgn NaN = 0"
| "jsgn NInf = - 1"
| "jsgn PInf = 1"
| "jsgn (Fin a) = sgn a"

definition inf_of_sign :: "real \<Rightarrow> num" where
  "inf_of_sign s = (if s = 0 then NaN else if 0 < s then PInf else NInf)"

fun jmul :: "num \<Rightarrow> num \<Rightarrow> num" where
  "jmul (Fin a) (Fin b) = Fin (a * b)"
| "jmul NaN y = NaN"
| "jmul x NaN = NaN"
| "jmul x y = inf_of_sign (jsgn x * jsgn y)"

fun jdiv :: "num \<Rightarrow> num \<Rightarrow> num" where
  "jdiv (Fin a) (Fin b) = (if b = 0 then inf_of_sign (sgn a) else Fin (a / b))"
| "jdiv NaN y = NaN"
| "jdiv x NaN = NaN"
| "jdiv (Fin a) y = Fin 0"
| "jdiv x (Fin b) = inf_of_sign (jsgn x * (if b < 0 then - 1 else 1))"
| "jdiv PInf y = NaN"
| "jdiv NInf y = NaN"

text \<open>The relational operators: every comparison with NaN is false.\<close>

fun jlt :: "num \<Rightarrow> num \<Rightarrow> bool" where
  "jlt (Fin a) (Fin b) = (a < b)"
| "jlt NaN y = False"
| "jlt x NaN = False"
| "jlt x NInf = False"
| "jlt PInf y = False"
| "jlt NInf y = True"
| "jlt x PInf = True"

fun jle :: "num \<Rightarrow> num \<Rightarrow> bool" where
  "jle (Fin a) (Fin b) = (a \<le> b)"
| "jle NaN y = False"
| "jle x NaN = False"
| "jle NInf y = True"
| "jle x PInf = True"
| "jle x NInf = False"
| "jle PInf y = False"

definition jgt :: "num \<Rightarrow> num \<Rightarrow> bool" where
  "jgt x y = jlt y x"

definition jge :: "num \<Rightarrow> num \<Rightarrow> bool" where
  "jge x y = jle y x"

text \<open>Strict equality \<open>===\<close> on numbers: NaN is not equal to itself.\<close>

definition jeq :: "num \<Rightarrow> num \<Rightarrow> bool" where
  "jeq x y = (x \<noteq> NaN \<and> x = y)"

text \<open>\<open>Math.max\<close> and \<open>Math.min\<close> of two arguments: NaN as soon as one argument is NaN.\<close>

definition Math_max :: "num \<Rightarrow> num \<Rightarrow> num" where
  "Math_max x y = (if x = NaN \<or> y = NaN then NaN else if jlt x y then y else x)"

definition Math_min :: "num \<Rightarrow> num \<Rightarrow> num" where
  "Math_min x y = (if x = NaN \<or> y = NaN then NaN else if jlt y x then y else x)"

text \<open>\<open>Math.round\<close> rounds to the nearest integer, a half towards \<open>+\<infinity>\<close>.\<close>

fun Math_round :: "num \<Rightarrow> num" where
  "Math_round (Fin a) = Fin (of_int \<lfloor>a + 1 / 2\<rfloor>)"
| "Math_round x = x"

fun Math_abs :: "num \<Rightarrow> num" where
  "Math_abs (Fin a) = Fin \<bar>a\<bar>"
| "Math_abs NaN = NaN"
| "Math_abs x = PInf"

fun Math_exp :: "num \<Rightarrow> num" where
  "Math_exp (Fin a) = Fin (exp a)"
| "Math_exp NaN = NaN"
| "Math_exp NInf = Fin 0"
| "Math_exp PInf = PInf"

fun Math_log :: "num \<Rightarrow> num" where
  "Math_log (Fin a) = (if a < 0 then NaN else if a = 0 then NInf else Fin (ln a))"
| "Math_log PInf = PInf"
| "Math_log x = NaN"

fun Math_sqrt :: "num \<Rightarrow> num" where
  "Math_sqrt (Fin a) = (if a < 0 then NaN else Fin (sqrt a))"
| "Math_sqrt PInf = PInf"
| "Math_sqrt x = NaN"

fun Math_cos :: "num \<Rightarrow> num" where
  "Math_cos (Fin a) = Fin (cos a)"
| "Math_cos x = NaN"

definition Math_PI :: num where
  "Math_PI = Fin pi"

text \<open>
  The exponentiation operator \<open>**\<close> (\<open>Number::exponentiate\<close>). An exponent of zero gives 1
  for every base, NaN included; a negative finite base has a value only at an integral
  exponent.
\<close>

definition is_odd_int :: "real \<Rightarrow> bool" where
  "is_odd_int b = (b = of_int \<lfloor>b\<rfloor> \<and> odd \<lfloor>b\<rfloor>)"

fun jpow :: "num \<Rightarrow> num \<Rightarrow> num" where
  "jpow x NaN = NaN"
| "jpow x (Fin b) =
     (if b = 0 then Fin 1
      else case x of
        NaN \<Rightarrow> NaN
      | PInf \<Rightarrow> (if 0 < b then PInf else Fin 0)
      | NInf \<Rightarrow> (if 0 < b then (if is_odd_int b then NInf else PInf) else Fin 0)
      | Fin a \<Rightarrow>
          (if a = 0 then (if 0 < b then Fin 0 else PInf)
           else if 0 < a then Fin (a powr b)
           else if b = of_int \<lfloor>b\<rfloor> then Fin (a powi \<lfloor>b\<rfloor>)
           else NaN))"
| "jpow x PInf =
     (case Math_abs x of
        NaN \<Rightarrow> NaN
      | y \<Rightarrow> (if jlt (Fin 1) y then PInf else if y = Fin 1 then NaN else Fin 0))"
| "jpow x NInf =
     (case Math_abs x of
        NaN \<Rightarrow> NaN
      | y \<Rightarrow> (if jlt (Fin 1) y then Fin 0 else if y = Fin 1 then NaN else PInf))"

text \<open>\<open>ToBoolean\<close> of a number: zero and NaN are falsy. \<open>x || 0\<close> on a property read.\<close>

definition falsy :: "num \<Rightarrow> bool" where
  "falsy x = (x = NaN \<or> x = Fin 0)"

definition or_zero :: "num option \<Rightarrow> num" where
  "or_zero v = (case v of None \<Rightarrow> Fin 0 | Some x \<Rightarrow> (if falsy x then Fin 0 else x))"

text \<open>\<open>ToBoolean\<close> of an object reference, an array included, is true whatever it holds.\<close>

definition truthy_object :: "'a \<Rightarrow> bool" where
  "truthy_object obj = True"

section \<open>The diagnostic engine\<close>

datatype root_cause =
  HEALTHY | NOISE_SPIKE | WIDEBAND_JAMMER | SYNC_LOSS | CONGESTION | FADING | UNKNOWN

text \<open>The string each member of \<open>RootCause\<close> stands for.\<close>

fun root_cause_str :: "root_cause \<Rightarrow> string" where
  "root_cause_str HEALTHY = ''healthy''"
| "root_cause_str NOISE_SPIKE = ''noise_spike''"
| "root_cause_str WIDEBAND_JAMMER = ''wideband_jammer''"
| "root_cause_str SYNC_LOSS = ''sync_loss''"
| "root_cause_str CONGESTION = ''congestion''"
| "root_cause_str FADING = ''fading''"
| "root_cause_str UNKNOWN = ''unknown''"

record window_stats =
  snr_mean :: num
  snr_std :: num
  ber_mean :: num
  ber_max :: num
  latency_mean :: num
  retries_mean :: num

record evidence =
  root_cause :: root_cause
  score :: num
  explanation :: string

text \<open>
  The field \<open>explanation\<close> of a diagnosis is \<open>diag_explanation\<close> here: an evidence has a
  field of the same name.
\<close>

record diagnosis =
  primary_cause :: root_cause
  confidence :: num
  ranked_causes :: "(root_cause \<times> num) list"
  diag_explanation :: string
  contributing_rules :: "evidence list"
  suggested_actions :: "string list"

record engine =
  good_snr_db :: num
  moderate_snr_db :: num
  bad_snr_db :: num
  good_ber :: num
  moderate_ber :: num
  bad_ber :: num
  latency_warn_ms :: num
  latency_bad_ms :: num
  retries_warn :: num
  retries_bad :: num

text \<open>The constructor of \<open>DiagnosticEngine\<close>.\<close>

definition DiagnosticEngine :: engine where
  "DiagnosticEngine =
     \<lparr>good_snr_db = Fin 20, moderate_snr_db = Fin 12, bad_snr_db = Fin 8,
      good_ber = Fin (1 / 10 ^ 5), moderate_ber = Fin (1 / 10 ^ 3), bad_ber = Fin (1 / 10 ^ 2),
      latency_warn_ms = Fin 80, latency_bad_ms = Fin 160,
      retries_warn = Fin 1, retries_bad = Fin 3\<rparr>"

text \<open>
  The number-to-string conversions of the platform (\<open>toFixed\<close>, \<open>toExponential\<close> and the
  conversion of a template literal) are not part of the program: the engine takes them as
  a parameter.
\<close>

record number_format =
  toFixed :: "num \<Rightarrow> nat \<Rightarrow> string"
  toExponential :: "num \<Rightarrow> nat \<Rightarrow> string"
  toString :: "num \<Rightarrow> string"

datatype js_error = TypeError

subsection \<open>The rule predicates, in the order of \<open>diagnose\<close>\<close>

definition healthy_rule :: "engine \<Rightarrow> window_stats \<Rightarrow> bool" where
  "healthy_rule e w =
     (jgt (snr_mean w) (good_snr_db e) \<and> jlt (ber_max w) (good_ber e) \<and>
      jlt (latency_mean w) (latency_warn_ms e) \<and> jle (retries_mean w) (retries_warn e))"

definition noise_spike_rule :: "engine \<Rightarrow> window_stats \<Rightarrow> bool" where
  "noise_spike_rule e w =
     (jlt (snr_mean w) (good_snr_db e) \<and> jgt (snr_std w) (Fin (3 / 2)) \<and>
      jgt (ber_max w) (moderate_ber e) \<and> jlt (latency_mean w) (latency_bad_ms e))"

definition wideband_jammer_rule :: "engine \<Rightarrow> window_stats \<Rightarrow> bool" where
  "wideband_jammer_rule e w =
     (jlt (snr_mean w) (moderate_snr_db e) \<and> jgt (ber_mean w) (moderate_ber e) \<and>
      jge (retries_mean w) (retries_warn e))"

definition sync_loss_rule :: "engine \<Rightarrow> window_stats \<Rightarrow> bool" where
  "sync_loss_rule e w =
     (jgt (ber_max w) (Fin (5 / 100)) \<and> jge (snr_mean w) (moderate_snr_db e))"

definition congestion_rule :: "engine \<Rightarrow> window_stats \<Rightarrow> bool" where
  "congestion_rule e w =
     (jgt (latency_mean w) (latency_warn_ms e) \<and> jgt (retries_mean w) (retries_warn e) \<and>
      jgt (snr_mean w) (bad_snr_db e))"

definition fading_rule :: "engine \<Rightarrow> window_stats \<Rightarrow> bool" where
  "fading_rule e w =
     (jlt (snr_mean w) (good_snr_db e) \<and> jgt (snr_std w) (Fin 2) \<and>
      jgt (ber_mean w) (good_ber e) \<and> jlt (latency_mean w) (latency_bad_ms e))"

subsection \<open>The evidence each rule pushes\<close>

definition healthy_evidence :: evidence where
  "healthy_evidence =
     \<lparr>root_cause = HEALTHY, score = Fin 1,
      explanation = ''SNR, BER, latency, and retries are nominal.''\<rparr>"

definition noise_spike_evidence :: "engine \<Rightarrow> window_stats \<Rightarrow> evidence" where
  "noise_spike_evidence e w =
     (let severity = Math_min (Fin 1) (jdiv (jsub (good_snr_db e) (snr_mean w)) (Fin 10))
      in \<lparr>root_cause = NOISE_SPIKE,
          score = jadd (Fin (4 / 10)) (jmul (Fin (6 / 10)) severity),
          explanation =
            ''Volatile SNR dips with BER bursts and modest latency suggest impulsive noise.''\<rparr>)"

definition wideband_jammer_evidence :: "engine \<Rightarrow> window_stats \<Rightarrow> evidence" where
  "wideband_jammer_evidence e w =
     (let jammer_strength =
            Math_min (Fin 1) (jdiv (jsub (moderate_snr_db e) (snr_mean w)) (Fin 8))
      in \<lparr>root_cause = WIDEBAND_JAMMER,
          score = jadd (Fin (5 / 10)) (jmul (Fin (5 / 10)) jammer_strength),
          explanation =
            ''Persistently poor SNR with high BER and retries indicates strong interference/jamming.''\<rparr>)"

definition sync_loss_evidence :: "engine \<Rightarrow> window_stats \<Rightarrow> evidence" where
  "sync_loss_evidence e w =
     (let outage_severity =
            Math_min (Fin 1) (jdiv (jsub (ber_max w) (Fin (5 / 100))) (Fin (25 / 100)))
      in \<lparr>root_cause = SYNC_LOSS,
          score = jadd (Fin (6 / 10)) (jmul (Fin (4 / 10)) outage_severity),
          explanation =
            ''Very high BER while RF SNR is acceptable points to framing/sync loss.''\<rparr>)"

definition congestion_evidence :: "engine \<Rightarrow> window_stats \<Rightarrow> evidence" where
  "congestion_evidence e w =
     (let cong_level =
            Math_min (Fin 1) (jdiv (jsub (latency_mean w) (latency_warn_ms e)) (Fin 120))
      in \<lparr>root_cause = CONGESTION,
          score = jadd (Fin (4 / 10)) (jmul (Fin (6 / 10)) cong_level),
          explanation =
            ''High latency and retries with tolerable RF conditions suggest congestion.''\<rparr>)"

definition fading_evidence :: "engine \<Rightarrow> window_stats \<Rightarrow> evidence" where
  "fading_evidence e w =
     (let fade_level = Math_min (Fin 1) (jdiv (snr_std w) (Fin 5))
      in \<lparr>root_cause = FADING,
          score = jadd (Fin (3 / 10)) (jmul (Fin (7 / 10)) fade_level),
          explanation =
            ''Significant SNR fluctuations with elevated BER and modest latency hint at fading.''\<rparr>)"

definition fallback_healthy_evidence :: evidence where
  "fallback_healthy_evidence =
     \<lparr>root_cause = HEALTHY, score = Fin (8 / 10),
      explanation = ''No anomaly signatures; link appears healthy.''\<rparr>"

definition unknown_evidence :: evidence where
  "unknown_evidence =
     \<lparr>root_cause = UNKNOWN, score = Fin 1,
      explanation = ''Patterns do not clearly match any known rule set.''\<rparr>"

text \<open>The six conditionals of \<open>diagnose\<close>, each pushing onto \<open>evidences\<close> in turn.\<close>

definition rule_evidences :: "engine \<Rightarrow> window_stats \<Rightarrow> evidence list" where
  "rule_evidences e w =
     (let evidences = [];
          evidences = (if healthy_rule e w then evidences @ [healthy_evidence] else evidences);
          evidences = (if noise_spike_rule e w
                       then evidences @ [noise_spike_evidence e w] else evidences);
          evidences = (if wideband_jammer_rule e w
                       then evidences @ [wideband_jammer_evidence e w] else evidences);
          evidences = (if sync_loss_rule e w
                       then evidences @ [sync_loss_evidence e w] else evidences);
          evidences = (if congestion_rule e w
                       then evidences @ [congestion_evidence e w] else evidences);
          evidences = (if fading_rule e w
                       then evidences @ [fading_evidence e w] else evidences)
      in evidences)"

subsection \<open>The \<open>scores\<close> object\<close>

text \<open>
  An object with string keys lists its properties in the order of their creation: an
  association list, where a write to an existing key keeps the key's place and a write
  to a new key appends.
\<close>

type_synonym scores = "(root_cause \<times> num) list"

fun obj_get :: "scores \<Rightarrow> root_cause \<Rightarrow> num option" where
  "obj_get [] k = None"
| "obj_get ((k', v) # kvs) k = (if k' = k then Some v else obj_get kvs k)"

fun obj_set :: "scores \<Rightarrow> root_cause \<Rightarrow> num \<Rightarrow> scores" where
  "obj_set [] k v = [(k, v)]"
| "obj_set ((k', v') # kvs) k v = (if k' = k then (k, v) # kvs else (k', v') # obj_set kvs k v)"

definition Object_keys :: "scores \<Rightarrow> root_cause list" where
  "Object_keys s = map fst s"

definition Object_values :: "scores \<Rightarrow> num list" where
  "Object_values s = map snd s"

definition Object_entries :: "scores \<Rightarrow> (root_cause \<times> num) list" where
  "Object_entries s = s"

text \<open>\<open>for (const ev of evidences) scores[ev.root_cause] = (scores[ev.root_cause] || 0) + ev.score\<close>\<close>

definition add_evidence :: "scores \<Rightarrow> evidence \<Rightarrow> scores" where
  "add_evidence s ev =
     obj_set s (root_cause ev) (jadd (or_zero (obj_get s (root_cause ev))) (score ev))"

definition accumulate :: "evidence list \<Rightarrow> scores" where
  "accumulate evidences = foldl add_evidence [] evidences"

subsection \<open>Sorting\<close>

text \<open>
  \<open>Array.prototype.sort\<close> with a comparator is a stable sort: \<open>x\<close> goes behind \<open>y\<close> only
  where the comparator's value on \<open>(x, y)\<close> is greater than zero (a NaN counts as zero).
  Insertion from the right is such a sort.
\<close>

fun sort_insert :: "('a \<Rightarrow> 'a \<Rightarrow> num) \<Rightarrow> 'a \<Rightarrow> 'a list \<Rightarrow> 'a list" where
  "sort_insert cmp x [] = [x]"
| "sort_insert cmp x (y # ys) =
     (if jgt (cmp x y) (Fin 0) then y # sort_insert cmp x ys else x # y # ys)"

definition Array_sort :: "('a \<Rightarrow> 'a \<Rightarrow> num) \<Rightarrow> 'a list \<Rightarrow> 'a list" where
  "Array_sort cmp xs = foldr (sort_insert cmp) xs []"

subsection \<open>Explanation and actions\<close>

definition replace_underscores :: "string \<Rightarrow> string" where
  "replace_underscores s = map (\<lambda>c. if c = CHR ''_'' then CHR '' '' else c) s"

fun join :: "string \<Rightarrow> string list \<Rightarrow> string" where
  "join sep [] = []"
| "join sep [x] = x"
| "join sep (x # y # ys) = x @ sep @ join sep (y # ys)"

text \<open>The sign for "approximately" in the healthy sentence is written \<open>~\<close> here.\<close>

definition buildExplanation ::
  "number_format \<Rightarrow> root_cause \<Rightarrow> num \<Rightarrow> window_stats \<Rightarrow> evidence list \<Rightarrow> string" where
  "buildExplanation fmt cause conf w evidences =
     (let confPct = Math_round (jmul conf (Fin 100)) in
      if cause = HEALTHY then
        ''Link appears healthy (SNR ~ '' @ toFixed fmt (snr_mean w) 1 @
        '' dB, BER max ~ '' @ toExponential fmt (ber_max w) 2 @
        '', latency ~ '' @ toFixed fmt (latency_mean w) 0 @
        '' ms, retries ~ '' @ toFixed fmt (retries_mean w) 1 @
        ''). Confidence '' @ toString fmt confPct @ ''%.''
      else
        let base = ''Most likely root cause: '' @ replace_underscores (root_cause_str cause) @
                   '' (confidence '' @ toString fmt confPct @ ''%). '';
            reasons = join '' '' (map explanation
                        (filter (\<lambda>ev. root_cause ev = cause) evidences))
        in base @ (if reasons = [] then ''Metric patterns weakly indicate this condition.''
                   else reasons))"

fun suggestActions :: "root_cause \<Rightarrow> string list" where
  "suggestActions HEALTHY =
     [''No immediate action required. Continue monitoring for emerging anomalies.'']"
| "suggestActions NOISE_SPIKE =
     [''Check grounding/shielding to reduce impulsive noise coupling.'',
      ''Inspect nearby equipment for intermittent high-power emissions.'',
      ''Increase error-correction strength or interleaving depth if possible.'']"
| "suggestActions WIDEBAND_JAMMER =
     [''Evaluate spectral environment and locate strong interferers.'',
      ''Switch to an alternate channel or band if available.'',
      ''Apply filtering/notching around the interferer.'']"
| "suggestActions SYNC_LOSS =
     [''Verify clock stability and alignment between TX/RX.'',
      ''Increase preamble length or improve sync acquisition.'',
      ''Check for framing/configuration mismatches.'']"
| "suggestActions CONGESTION =
     [''Reduce offered load or apply traffic shaping.'',
      ''Increase buffers or enable congestion control mechanisms.'',
      ''Distribute traffic across additional links if possible.'']"
| "suggestActions FADING =
     [''Increase transmit power within limits.'',
      ''Enable diversity (spatial/frequency/time).'',
      ''Use more robust modulation/coding during deep fades.'']"
| "suggestActions UNKNOWN =
     [''Capture additional diagnostics to refine the hypothesis.'',
      ''Consider extending the rule base for newly observed patterns.'']"

subsection \<open>\<open>diagnose\<close>\<close>

text \<open>
  The guard of the second fallback, \<open>!evidences && ber_max < moderate_ber && snr_mean >
  good_snr_db\<close>.
\<close>

definition healthy_fallback_guard :: "engine \<Rightarrow> window_stats \<Rightarrow> evidence list \<Rightarrow> bool" where
  "healthy_fallback_guard e w evidences =
     (\<not> truthy_object evidences \<and> jlt (ber_max w) (moderate_ber e) \<and>
      jgt (snr_mean w) (good_snr_db e))"

text \<open>
  The state of \<open>diagnose\<close> after its two fallbacks: the \<open>scores\<close> object and the
  \<open>evidences\<close> array.
\<close>

definition with_fallbacks ::
  "engine \<Rightarrow> window_stats \<Rightarrow> scores \<times> evidence list" where
  "with_fallbacks e w =
     (let evidences = rule_evidences e w;
          scores = accumulate evidences;
          (scores, evidences) =
            (if healthy_fallback_guard e w evidences
             then (obj_set scores HEALTHY (Fin (8 / 10)), evidences @ [fallback_healthy_evidence])
             else (scores, evidences));
          (scores, evidences) =
            (if length (Object_keys scores) = 0
             then (obj_set scores UNKNOWN (Fin 1), evidences @ [unknown_evidence])
             else (scores, evidences))
      in (scores, evidences))"

definition total_score :: "scores \<Rightarrow> num" where
  "total_score scores = foldl jadd (Fin 0) (Object_values scores)"

definition rank :: "scores \<Rightarrow> (root_cause \<times> num) list" where
  "rank scores =
     (let total = total_score scores
      in Array_sort (\<lambda>a b. jsub (snd b) (snd a))
           (map (\<lambda>(k, v). (k, jdiv v total)) (Object_entries scores)))"

text \<open>
  Destructuring \<open>ranked[0]\<close> throws a TypeError when \<open>ranked\<close> is empty: the only place of
  \<open>diagnose\<close> that can throw on a window of numbers.
\<close>

definition diagnose :: "number_format \<Rightarrow> engine \<Rightarrow> window_stats \<Rightarrow> js_error + diagnosis" where
  "diagnose fmt e w =
     (let (scores, evidences) = with_fallbacks e w;
          ranked = rank scores
      in case ranked of
           [] \<Rightarrow> Inl TypeError
         | (cause, conf) # _ \<Rightarrow>
             Inr \<lparr>primary_cause = cause,
                  confidence = conf,
                  ranked_causes = ranked,
                  diag_explanation = buildExplanation fmt cause conf w evidences,
                  contributing_rules = evidences,
                  suggested_actions = suggestActions cause\<rparr>)"

section \<open>The link simulator\<close>

subsection \<open>Random primitives\<close>

text \<open>
  The random source is the list of the values that the coming calls of \<open>Math.random\<close>
  return, in order. A computation that asks for more values than the list holds has no
  result (\<open>None\<close>): the list is the fuel of the two loops below.
\<close>

type_synonym source = "real list"

fun Math_random :: "source \<Rightarrow> (num \<times> source) option" where
  "Math_random [] = None"
| "Math_random (x # src) = Some (Fin x, src)"

text \<open>\<open>let u = 0; while (u === 0) u = Math.random();\<close>\<close>

fun until_nonzero :: "source \<Rightarrow> (num \<times> source) option" where
  "until_nonzero [] = None"
| "until_nonzero (x # src) = (if jeq (Fin x) (Fin 0) then until_nonzero src else Some (Fin x, src))"

definition randn :: "source \<Rightarrow> (num \<times> source) option" where
  "randn src =
     do {
       (u, src) \<leftarrow> until_nonzero src;
       (v, src) \<leftarrow> until_nonzero src;
       Some (jmul (Math_sqrt (jmul (Fin (- 2)) (Math_log u)))
                  (Math_cos (jmul (jmul (Fin 2) Math_PI) v)), src)
     }"

text \<open>\<open>do { k++; p *= Math.random(); } while (p > L); return k - 1;\<close>\<close>

fun poisson_loop :: "num \<Rightarrow> num \<Rightarrow> num \<Rightarrow> source \<Rightarrow> (num \<times> source) option" where
  "poisson_loop L k p [] = None"
| "poisson_loop L k p (x # src) =
     (let k = jadd k (Fin 1);
          p = jmul p (Fin x)
      in if jgt p L then poisson_loop L k p src else Some (jsub k (Fin 1), src))"

definition poisson :: "num \<Rightarrow> source \<Rightarrow> (num \<times> source) option" where
  "poisson lambda src =
     (if jle lambda (Fin 0) then Some (Fin 0, src)
      else let L = Math_exp (jneg lambda) in poisson_loop L (Fin 0) (Fin 1) src)"

subsection \<open>Configuration and state\<close>

datatype fault_type =
  FT_NONE | FT_NOISE_SPIKE | FT_WIDEBAND_JAMMER | FT_SYNC_LOSS | FT_CONGESTION | FT_FADING

record fault_config =
  noise_spike_level :: num
  jammer_level :: num
  sync_loss_prob :: num
  congestion_level :: num
  fading_severity :: num

definition FaultConfig :: fault_config where
  "FaultConfig =
     \<lparr>noise_spike_level = Fin 0, jammer_level = Fin 0, sync_loss_prob = Fin 0,
      congestion_level = Fin 0, fading_severity = Fin 0\<rparr>"

text \<open>The field \<open>t\<close> of the simulator is \<open>sim_t\<close> here: a sample has a field of that name.\<close>

record simulator =
  sim_t :: num
  baseline_snr_db :: num
  baseline_ber :: num
  baseline_latency_ms :: num
  baseline_retries :: num
  fault_config :: fault_config

definition CommLinkSimulator :: simulator where
  "CommLinkSimulator =
     \<lparr>sim_t = Fin 0, baseline_snr_db = Fin 25, baseline_ber = Fin (1 / 10 ^ 6),
      baseline_latency_ms = Fin 20, baseline_retries = Fin 0, fault_config = FaultConfig\<rparr>"

definition setFaultConfig :: "simulator \<Rightarrow> fault_config \<Rightarrow> simulator" where
  "setFaultConfig sim cfg = sim\<lparr>fault_config := cfg\<rparr>"

subsection \<open>\<open>step\<close>\<close>

text \<open>The local variables of \<open>step\<close>, each under its name with the prefix \<open>l_\<close>.\<close>

record locals =
  l_snr :: num
  l_ber :: num
  l_latency :: num
  l_retries :: num
  l_active_faults :: "fault_type list"
  l_sync_outage :: bool

text \<open>
  Each part of \<open>step\<close> takes the local variables and the random source and gives them
  back; the calls of \<open>randn\<close>, \<open>poisson\<close> and \<open>Math.random\<close> come in the order in which
  the statements evaluate them.
\<close>

definition base_metrics :: "simulator \<Rightarrow> source \<Rightarrow> (locals \<times> source) option" where
  "base_metrics sim src =
     do {
       (g, src) \<leftarrow> randn src;
       let snr = jadd (baseline_snr_db sim) (jmul g (Fin (3 / 10)));
       (g, src) \<leftarrow> randn src;
       let ber = Math_max (jmul (baseline_ber sim) (jpow (Fin 10) (jmul g (Fin (2 / 10)))))
                          (Fin (1 / 10 ^ 9));
       (g, src) \<leftarrow> randn src;
       let latency = jadd (baseline_latency_ms sim) (jmul g (Fin 1));
       let retries = baseline_retries sim;
       Some (\<lparr>l_snr = snr, l_ber = ber, l_latency = latency, l_retries = retries,
              l_active_faults = [], l_sync_outage = False\<rparr>, src)
     }"

definition noise_spike_part :: "fault_config \<Rightarrow> locals \<Rightarrow> source \<Rightarrow> (locals \<times> source) option" where
  "noise_spike_part cfg v src =
     (if jgt (noise_spike_level cfg) (Fin 0) then
        do {
          let noise = noise_spike_level cfg;
          (g, src) \<leftarrow> randn src;
          let v = v\<lparr>l_snr := jsub (l_snr v) (jadd (jmul (Fin 8) noise) (jmul g (jmul (Fin 1) noise)))\<rparr>;
          (g, src) \<leftarrow> randn src;
          let v = v\<lparr>l_ber := jmul (l_ber v)
                    (jpow (Fin 10) (jadd (jmul (Fin 2) noise) (jmul g (jmul (Fin (5 / 10)) noise))))\<rparr>;
          Some (v\<lparr>l_active_faults := l_active_faults v @ [FT_NOISE_SPIKE]\<rparr>, src)
        }
      else Some (v, src))"

definition jammer_part :: "fault_config \<Rightarrow> locals \<Rightarrow> source \<Rightarrow> (locals \<times> source) option" where
  "jammer_part cfg v src =
     (if jgt (jammer_level cfg) (Fin 0) then
        do {
          let jam = jammer_level cfg;
          (g, src) \<leftarrow> randn src;
          let v = v\<lparr>l_snr := jsub (l_snr v) (jadd (jmul (Fin 15) jam) (jmul g (jmul (Fin 2) jam)))\<rparr>;
          (g, src) \<leftarrow> randn src;
          let v = v\<lparr>l_ber := jmul (l_ber v)
                    (jpow (Fin 10) (jadd (jmul (Fin 3) jam) (jmul g (jmul (Fin (5 / 10)) jam))))\<rparr>;
          (n, src) \<leftarrow> poisson (jmul (Fin 2) jam) src;
          let v = v\<lparr>l_retries := jadd (l_retries v)
                    (Math_max (Fin 0) (Math_round (jadd (jmul (Fin 5) jam) n)))\<rparr>;
          (g, src) \<leftarrow> randn src;
          let v = v\<lparr>l_latency := jadd (l_latency v)
                    (jadd (jmul (Fin 5) jam) (jmul g (jmul (Fin 2) jam)))\<rparr>;
          Some (v\<lparr>l_active_faults := l_active_faults v @ [FT_WIDEBAND_JAMMER]\<rparr>, src)
        }
      else Some (v, src))"

text \<open>
  The guard \<open>cfg.sync_loss_prob > 0 && Math.random() < cfg.sync_loss_prob\<close> draws only
  when its first operand holds.
\<close>

definition sync_loss_trial :: "fault_config \<Rightarrow> source \<Rightarrow> (bool \<times> source) option" where
  "sync_loss_trial cfg src =
     (if jgt (sync_loss_prob cfg) (Fin 0) then
        do {
          (u, src) \<leftarrow> Math_random src;
          Some (jlt u (sync_loss_prob cfg), src)
        }
      else Some (False, src))"

text \<open>The body of the conditional: the outage.\<close>

definition sync_outage :: "simulator \<Rightarrow> locals \<Rightarrow> source \<Rightarrow> (locals \<times> source) option" where
  "sync_outage sim v src =
     do {
       let v = v\<lparr>l_sync_outage := True\<rparr>;
       (u, src) \<leftarrow> Math_random src;
       let v = v\<lparr>l_ber := jadd (Fin (1 / 10)) (jmul (Fin (8 / 10)) u)\<rparr>;
       (g, src) \<leftarrow> randn src;
       let v = v\<lparr>l_snr := jadd (baseline_snr_db sim) g\<rparr>;
       (g, src) \<leftarrow> randn src;
       let v = v\<lparr>l_latency := jadd (l_latency v) (jadd (Fin 200) (jmul g (Fin 20)))\<rparr>;
       (n, src) \<leftarrow> poisson (Fin 3) src;
       let v = v\<lparr>l_retries := jadd (l_retries v) (jadd (Fin 5) n)\<rparr>;
       Some (v\<lparr>l_active_faults := l_active_faults v @ [FT_SYNC_LOSS]\<rparr>, src)
     }"

definition sync_loss_part :: "simulator \<Rightarrow> fault_config \<Rightarrow> locals \<Rightarrow> source \<Rightarrow> (locals \<times> source) option" where
  "sync_loss_part sim cfg v src =
     do {
       let v = v\<lparr>l_sync_outage := False\<rparr>;
       (outage, src) \<leftarrow> sync_loss_trial cfg src;
       if outage then sync_outage sim v src else Some (v, src)
     }"

definition congestion_part :: "fault_config \<Rightarrow> locals \<Rightarrow> source \<Rightarrow> (locals \<times> source) option" where
  "congestion_part cfg v src =
     (if jgt (congestion_level cfg) (Fin 0) \<and> \<not> l_sync_outage v then
        do {
          let cong = congestion_level cfg;
          (g, src) \<leftarrow> randn src;
          let v = v\<lparr>l_latency := jadd (l_latency v)
                    (jadd (jmul (Fin 40) cong) (jmul g (jmul (Fin 10) cong)))\<rparr>;
          (n, src) \<leftarrow> poisson (jmul (Fin 3) cong) src;
          let v = v\<lparr>l_retries := jadd (l_retries v)
                    (Math_max (Fin 0) (Math_round (jadd (jmul (Fin 3) cong) n)))\<rparr>;
          (g, src) \<leftarrow> randn src;
          let v = v\<lparr>l_ber := jmul (l_ber v)
                    (jpow (Fin 10) (jadd (jmul (Fin (3 / 10)) cong) (jmul g (jmul (Fin (1 / 10)) cong))))\<rparr>;
          Some (v\<lparr>l_active_faults := l_active_faults v @ [FT_CONGESTION]\<rparr>, src)
        }
      else Some (v, src))"

definition fading_part :: "fault_config \<Rightarrow> locals \<Rightarrow> source \<Rightarrow> (locals \<times> source) option" where
  "fading_part cfg v src =
     (if jgt (fading_severity cfg) (Fin 0) \<and> \<not> l_sync_outage v then
        do {
          let fad = fading_severity cfg;
          (g, src) \<leftarrow> randn src;
          let v = v\<lparr>l_snr := jsub (l_snr v)
                    (jadd (jmul (Fin 5) fad) (Math_abs (jmul g (jmul (Fin 3) fad))))\<rparr>;
          (g, src) \<leftarrow> randn src;
          let v = v\<lparr>l_ber := jmul (l_ber v)
                    (jpow (Fin 10) (jadd (jmul (Fin (15 / 10)) fad) (jmul g (jmul (Fin (3 / 10)) fad))))\<rparr>;
          Some (v\<lparr>l_active_faults := l_active_faults v @ [FT_FADING]\<rparr>, src)
        }
      else Some (v, src))"

definition clip :: "locals \<Rightarrow> locals" where
  "clip v =
     (let v = v\<lparr>l_snr := Math_min (Math_max (l_snr v) (Fin (- 5))) (Fin 40)\<rparr>;
          v = v\<lparr>l_ber := Math_min (Math_max (l_ber v) (Fin (1 / 10 ^ 9))) (Fin (5 / 10))\<rparr>;
          v = v\<lparr>l_latency := Math_max (Fin 1) (l_latency v)\<rparr>;
          v = v\<lparr>l_retries := Math_max (Fin 0) (Math_round (l_retries v))\<rparr>
      in v)"

record sample =
  t :: num
  snr_db :: num
  ber :: num
  latency_ms :: num
  retries :: num
  active_faults :: "fault_type list"

text \<open>
  \<open>step\<close> returns the sample, the simulator with its tick advanced and the rest of the
  random source.
\<close>

definition step :: "simulator \<Rightarrow> source \<Rightarrow> (sample \<times> simulator \<times> source) option" where
  "step sim src =
     do {
       let sim = sim\<lparr>sim_t := jadd (sim_t sim) (Fin 1)\<rparr>;
       let cfg = fault_config sim;
       (v, src) \<leftarrow> base_metrics sim src;
       (v, src) \<leftarrow> noise_spike_part cfg v src;
       (v, src) \<leftarrow> jammer_part cfg v src;
       (v, src) \<leftarrow> sync_loss_part sim cfg v src;
       (v, src) \<leftarrow> congestion_part cfg v src;
       (v, src) \<leftarrow> fading_part cfg v src;
       let v = clip v;
       Some (\<lparr>t = sim_t sim, snr_db = l_snr v, ber = l_ber v, latency_ms = l_latency v,
              retries = l_retries v, active_faults = l_active_faults v\<rparr>, sim, src)
     }"

section \<open>The window aggregator\<close>

definition mean :: "num list \<Rightarrow> num" where
  "mean arr =
     (if length arr = 0 then NaN
      else jdiv (foldl (\<lambda>a b. jadd a b) (Fin 0) arr) (Fin (real (length arr))))"

definition std :: "num list \<Rightarrow> num" where
  "std arr =
     (if length arr = 0 then NaN
      else let m = mean arr;
               v = jdiv (foldl (\<lambda>s x. jadd s (jpow (jsub x m) (Fin 2))) (Fin 0) arr)
                        (Fin (real (length arr)))
           in Math_sqrt v)"

definition maxVal :: "num list \<Rightarrow> num" where
  "maxVal arr =
     (if length arr = 0 then NaN
      else foldl (\<lambda>a b. if jgt b a then b else a) NInf arr)"

text \<open>
  \<open>history.slice(-windowSize)\<close> for a window size that is a natural number: the last
  \<open>windowSize\<close> samples, and the whole history when the size is zero (\<open>-0\<close> is \<open>0\<close>).
\<close>

definition slice_last :: "nat \<Rightarrow> 'a list \<Rightarrow> 'a list" where
  "slice_last n xs = (if n = 0 then xs else drop (length xs - n) xs)"

definition windowFrom :: "sample list \<Rightarrow> nat \<Rightarrow> window_stats" where
  "windowFrom history windowSize =
     (let slice = slice_last windowSize history;
          snr = map snr_db slice;
          ber = map sample.ber slice;
          lat = map latency_ms slice;
          ret = map sample.retries slice
      in \<lparr>snr_mean = mean snr, snr_std = std snr, ber_mean = mean ber, ber_max = maxVal ber,
          latency_mean = mean lat, retries_mean = mean ret\<rparr>)"

section \<open>Notions for the statements and proofs\<close>

text \<open>A finite number greater than zero; the real value of a finite number.\<close>

fun fin_pos :: "num \<Rightarrow> bool" where
  "fin_pos (Fin r) = (0 < r)"
| "fin_pos x = False"

fun val :: "num \<Rightarrow> real" where
  "val (Fin r) = r"
| "val x = 0"

text \<open>
  The place of each cause in the order in which \<open>diagnose\<close> evaluates its rules, the
  \<open>unknown\<close> fallback last.
\<close>

fun rule_position :: "root_cause \<Rightarrow> nat" where
  "rule_position HEALTHY = 0"
| "rule_position NOISE_SPIKE = 1"
| "rule_position WIDEBAND_JAMMER = 2"
| "rule_position SYNC_LOSS = 3"
| "rule_position CONGESTION = 4"
| "rule_position FADING = 5"
| "rule_position UNKNOWN = 6"

text \<open>
  The entry of \<open>scores\<close> that an evidence makes when its cause is new, and evidences whose
  causes come in the order of the rules.
\<close>

definition scored :: "evidence \<Rightarrow> root_cause \<times> num" where
  "scored ev = (root_cause ev, score ev)"

definition in_rule_order :: "evidence list \<Rightarrow> bool" where
  "in_rule_order evs =
     sorted_wrt (\<lambda>a b. rule_position (root_cause a) < rule_position (root_cause b)) evs"


definition by_probability :: "root_cause \<times> num \<Rightarrow> root_cause \<times> num \<Rightarrow> num" where
  "by_probability a b = jsub (snd b) (snd a)"


text \<open>
  What the evidences of a diagnosis always are: not empty, in the order of the rules,
  with finite scores greater than zero. \<open>share T\<close> is the ranked entry of an evidence under
  the total \<open>T\<close>.
\<close>

definition well_scored :: "evidence list \<Rightarrow> bool" where
  "well_scored evs = (evs \<noteq> [] \<and> in_rule_order evs \<and> list_all (\<lambda>ev. fin_pos (score ev)) evs)"

definition share :: "real \<Rightarrow> evidence \<Rightarrow> root_cause \<times> num" where
  "share T ev = (root_cause ev, Fin (val (score ev) / T))"




text \<open>
  A simulator as the constructor makes it, at tick \<open>n\<close> and with the configuration \<open>cfg\<close>
  installed: \<open>step\<close> and \<open>setFaultConfig\<close> lead from such a simulator to such a simulator.
\<close>

definition started :: "num \<Rightarrow> fault_config \<Rightarrow> simulator" where
  "started n cfg = setFaultConfig (CommLinkSimulator\<lparr>sim_t := n\<rparr>) cfg"


text \<open>A window of a quiet link, and a number format that prints nothing.\<close>

definition nominal_window :: window_stats where
  "nominal_window =
     \<lparr>snr_mean = Fin 25, snr_std = Fin (3 / 10), ber_mean = Fin (1 / 10 ^ 6),
      ber_max = Fin (2 / 10 ^ 6), latency_mean = Fin 20, retries_mean = Fin 0\<rparr>"

definition no_format :: number_format where
  "no_format = \<lparr>toFixed = (\<lambda>x n. []), toExponential = (\<lambda>x n. []), toString = (\<lambda>x. [])\<rparr>"

text \<open>
  The spec's formula for the score of the noise-spike rule, with its clip to \<open>[0, 1]\<close> on
  both sides.
\<close>

definition spec_clip :: "num \<Rightarrow> num \<Rightarrow> num \<Rightarrow> num" where
  "spec_clip x lo hi = Math_min (Math_max x lo) hi"

definition spec_noise_spike_score :: "engine \<Rightarrow> window_stats \<Rightarrow> num" where
  "spec_noise_spike_score e w =
     jadd (Fin (4 / 10))
       (jmul (Fin (6 / 10)) (spec_clip (jdiv (jsub (good_snr_db e) (snr_mean w)) (Fin 10)) (Fin 0) (Fin 1)))"

text \<open>A window on which the noise-spike rule holds.\<close>

definition spiky_window :: window_stats where
  "spiky_window =
     \<lparr>snr_mean = Fin 15, snr_std = Fin 2, ber_mean = Fin (1 / 10 ^ 3),
      ber_max = Fin (1 / 10 ^ 2), latency_mean = Fin 20, retries_mean = Fin 0\<rparr>"











definition calm_source :: source where
  "calm_source = [1 / 2, 1 / 2, 1 / 2, 1 / 2, 1 / 2, 1 / 2]"



section \<open>Numbers\<close>

lemma jlt_NaN [simp]: "\<not> jlt x NaN" "\<not> jlt NaN x"
  by (cases x; simp)+

lemma jle_NaN [simp]: "\<not> jle x NaN" "\<not> jle NaN x"
  by (cases x; simp)+

lemma jadd_zero_left [simp]: "jadd (Fin 0) x = x"
  by (cases x) simp_all

lemma fin_pos_iff: "fin_pos x \<longleftrightarrow> (\<exists>r. x = Fin r \<and> 0 < r)"
  by (cases x) simp_all

section \<open>The scores of the rules\<close>

lemma noise_spike_score:
  assumes "noise_spike_rule DiagnosticEngine w"
  shows "\<exists>r. score (noise_spike_evidence DiagnosticEngine w) = Fin r \<and> 4 / 10 < r \<and> r \<le> 1"
  using assms
  apply (cases "snr_mean w")
  apply (auto simp: noise_spike_rule_def noise_spike_evidence_def DiagnosticEngine_def jsub_def
      Math_min_def jgt_def inf_of_sign_def Let_def)
  apply (simp_all add: field_simps)?
  done

lemma wideband_jammer_score:
  assumes "wideband_jammer_rule DiagnosticEngine w"
  shows "\<exists>r. score (wideband_jammer_evidence DiagnosticEngine w) = Fin r \<and> 5 / 10 < r \<and> r \<le> 1"
  using assms
  apply (cases "snr_mean w")
  apply (auto simp: wideband_jammer_rule_def wideband_jammer_evidence_def DiagnosticEngine_def jsub_def
      Math_min_def jgt_def inf_of_sign_def Let_def)
  apply (simp_all add: field_simps)?
  done

lemma sync_loss_score:
  assumes "sync_loss_rule DiagnosticEngine w"
  shows "\<exists>r. score (sync_loss_evidence DiagnosticEngine w) = Fin r \<and> 6 / 10 < r \<and> r \<le> 1"
  using assms
  apply (cases "ber_max w")
  apply (auto simp: sync_loss_rule_def sync_loss_evidence_def DiagnosticEngine_def jsub_def
      Math_min_def jgt_def inf_of_sign_def Let_def)
  apply (simp_all add: field_simps)?
  done

lemma congestion_score:
  assumes "congestion_rule DiagnosticEngine w"
  shows "\<exists>r. score (congestion_evidence DiagnosticEngine w) = Fin r \<and> 4 / 10 < r \<and> r \<le> 1"
  using assms
  apply (cases "latency_mean w")
  apply (auto simp: congestion_rule_def congestion_evidence_def DiagnosticEngine_def jsub_def
      Math_min_def jgt_def inf_of_sign_def Let_def)
  apply (simp_all add: field_simps)?
  done

lemma fading_score:
  assumes "fading_rule DiagnosticEngine w"
  shows "\<exists>r. score (fading_evidence DiagnosticEngine w) = Fin r \<and> 3 / 10 < r \<and> r \<le> 1"
  using assms
  apply (cases "snr_std w")
  apply (auto simp: fading_rule_def fading_evidence_def DiagnosticEngine_def jsub_def
      Math_min_def jgt_def inf_of_sign_def Let_def)
  apply (simp_all add: field_simps)?
  done

section \<open>The evidence array and the \<open>scores\<close> object\<close>

lemma obj_get_None: "k \<notin> fst ` set s \<Longrightarrow> obj_get s k = None"
  by (induction s) auto

lemma obj_set_new: "k \<notin> fst ` set s \<Longrightarrow> obj_set s k v = s @ [(k, v)]"
  by (induction s) auto

lemma add_evidence_new:
  "root_cause ev \<notin> fst ` set s \<Longrightarrow> add_evidence s ev = s @ [scored ev]"
  by (simp add: add_evidence_def obj_get_None obj_set_new or_zero_def scored_def)

lemma foldl_add_evidence:
  "distinct (map root_cause evs) \<Longrightarrow> fst ` set s \<inter> root_cause ` set evs = {} \<Longrightarrow>
   foldl add_evidence s evs = s @ map scored evs"
proof (induction evs arbitrary: s)
  case Nil
  then show ?case by simp
next
  case (Cons ev evs)
  have new: "root_cause ev \<notin> fst ` set s"
    using Cons.prems(2) by auto
  have "fst ` set (s @ [scored ev]) \<inter> root_cause ` set evs = {}"
    using Cons.prems by (auto simp: scored_def)
  with Cons.IH [of "s @ [scored ev]"] Cons.prems(1) new show ?case
    by (simp add: add_evidence_new)
qed

lemma accumulate_distinct:
  "distinct (map root_cause evs) \<Longrightarrow> accumulate evs = map scored evs"
  using foldl_add_evidence [of evs "[]"] by (simp add: accumulate_def)

lemma in_rule_order_distinct: "in_rule_order evs \<Longrightarrow> distinct (map root_cause evs)"
  unfolding in_rule_order_def
  by (induction evs) fastforce+

lemma rule_evidences_order: "in_rule_order (rule_evidences e w)"
  by (simp add: in_rule_order_def rule_evidences_def Let_def healthy_evidence_def
      noise_spike_evidence_def wideband_jammer_evidence_def sync_loss_evidence_def
      congestion_evidence_def fading_evidence_def)

lemma rule_evidences_pos:
  "ev \<in> set (rule_evidences DiagnosticEngine w) \<Longrightarrow> fin_pos (score ev)"
  using noise_spike_score [of w] wideband_jammer_score [of w] sync_loss_score [of w]
    congestion_score [of w] fading_score [of w]
  by (auto simp: rule_evidences_def Let_def healthy_evidence_def split: if_splits)

lemma healthy_fallback_guard_False: "\<not> healthy_fallback_guard e w evs"
  by (simp add: healthy_fallback_guard_def truthy_object_def)

lemma accumulate_Nil [simp]: "accumulate [] = []"
  by (simp add: accumulate_def)

lemma with_fallbacks_eq:
  "with_fallbacks e w =
     (if rule_evidences e w = [] then ([(UNKNOWN, Fin 1)], [unknown_evidence])
      else (map scored (rule_evidences e w), rule_evidences e w))"
  using accumulate_distinct [OF in_rule_order_distinct [OF rule_evidences_order [of e w]]]
  by (simp add: with_fallbacks_def healthy_fallback_guard_False Object_keys_def Let_def)

section \<open>Sums and the sort\<close>

lemma foldl_jadd_fin:
  "list_all fin_pos xs \<Longrightarrow> foldl jadd (Fin a) xs = Fin (a + sum_list (map val xs))"
proof (induction xs arbitrary: a)
  case Nil
  then show ?case by simp
next
  case (Cons x xs)
  then obtain r where "x = Fin r" by (auto simp: fin_pos_iff)
  with Cons show ?case by (simp add: add.assoc)
qed

lemma sum_list_val_pos:
  "list_all fin_pos xs \<Longrightarrow> xs \<noteq> [] \<Longrightarrow> 0 < sum_list (map val xs)"
proof (induction xs)
  case Nil
  then show ?case by simp
next
  case (Cons x xs)
  then obtain r where x: "x = Fin r" "0 < r" by (auto simp: fin_pos_iff)
  show ?case
  proof (cases "xs = []")
    case True
    with x show ?thesis by simp
  next
    case False
    with Cons x show ?thesis by simp
  qed
qed

lemma set_sort_insert: "set (sort_insert cmp x ys) = insert x (set ys)"
  by (induction ys) auto

lemma set_Array_sort: "set (Array_sort cmp xs) = set xs"
  by (induction xs) (simp_all add: Array_sort_def set_sort_insert)



lemma Array_sort_Nil_iff: "Array_sort cmp xs = [] \<longleftrightarrow> xs = []"
  using set_Array_sort [of cmp xs] by (metis set_empty)




section \<open>The ranked causes\<close>

lemma by_probability_eq: "(\<lambda>a b. jsub (snd b) (snd a)) = by_probability"
  by (intro ext) (simp add: by_probability_def)

lemma rank_eq:
  "rank s = Array_sort by_probability (map (\<lambda>(k, v). (k, jdiv v (total_score s))) s)"
  by (simp add: rank_def by_probability_eq Object_entries_def Let_def)

lemma with_fallbacks_well_scored:
  "with_fallbacks DiagnosticEngine w = (s, evs) \<Longrightarrow> s = map scored evs \<and> well_scored evs"
  using rule_evidences_order [of DiagnosticEngine w] rule_evidences_pos [of _ w]
  by (auto simp: with_fallbacks_eq well_scored_def list_all_iff in_rule_order_def
      unknown_evidence_def scored_def split: if_splits)

lemma total_score_scored:
  assumes "well_scored evs"
  shows "total_score (map scored evs) = Fin (sum_list (map (val \<circ> score) evs))"
    and "0 < sum_list (map (val \<circ> score) evs)"
proof -
  have pos: "list_all fin_pos (map score evs)"
    using assms by (simp add: well_scored_def list_all_iff)
  have "map snd (map scored evs) = map score evs"
    by (simp add: scored_def comp_def)
  then have "total_score (map scored evs) = foldl jadd (Fin 0) (map score evs)"
    by (simp only: total_score_def Object_values_def)
  with foldl_jadd_fin [OF pos, of 0]
  show "total_score (map scored evs) = Fin (sum_list (map (val \<circ> score) evs))"
    by (simp add: comp_def)
  from sum_list_val_pos [OF pos] assms
  show "0 < sum_list (map (val \<circ> score) evs)"
    by (simp add: well_scored_def comp_def)
qed

lemma normalised_scored:
  assumes "well_scored evs" and T: "T = sum_list (map (val \<circ> score) evs)"
  shows "map (\<lambda>(k, v). (k, jdiv v (Fin T))) (map scored evs) = map (share T) evs"
proof -
  have "0 < T" using total_score_scored(2) [OF assms(1)] T by simp
  have "(case scored ev of (k, v) \<Rightarrow> (k, jdiv v (Fin T))) = share T ev" if ev: "ev \<in> set evs" for ev
  proof -
    obtain r where "score ev = Fin r"
      using assms(1) ev by (auto simp: well_scored_def list_all_iff fin_pos_iff)
    with \<open>0 < T\<close> show ?thesis by (simp add: scored_def share_def)
  qed
  then show ?thesis by simp
qed

lemma rank_scored:
  assumes "well_scored evs"
  shows "rank (map scored evs) =
    Array_sort by_probability (map (share (sum_list (map (val \<circ> score) evs))) evs)"
  unfolding rank_eq total_score_scored(1) [OF assms] normalised_scored [OF assms refl] ..


lemma diagnose_ranked:
  obtains evs T where "well_scored evs" "T = sum_list (map (val \<circ> score) evs)" "0 < T"
    "with_fallbacks DiagnosticEngine w = (map scored evs, evs)"
    "rank (map scored evs) = Array_sort by_probability (map (share T) evs)"
proof -
  obtain s evs where wf: "with_fallbacks DiagnosticEngine w = (s, evs)"
    by (cases "with_fallbacks DiagnosticEngine w")
  from with_fallbacks_well_scored [OF wf] have s: "s = map scored evs" and ws: "well_scored evs"
    by simp_all
  show thesis
    using that [OF ws refl total_score_scored(2) [OF ws] _ rank_scored [OF ws]] wf s by simp
qed

lemma share_pos:
  assumes "well_scored evs" "0 < T" "a \<in> set (map (share T) evs)"
  shows "\<exists>p. snd a = Fin p \<and> 0 < p"
proof -
  from assms(3) obtain ev where ev: "ev \<in> set evs" "a = share T ev" by auto
  then have "fin_pos (score ev)" using assms(1) by (simp add: well_scored_def list_all_iff)
  then obtain r where "score ev = Fin r" "0 < r" by (auto simp: fin_pos_iff)
  with ev assms(2) show ?thesis by (simp add: share_def)
qed


section \<open>The healthy rule\<close>

lemma healthy_excludes:
  assumes "healthy_rule DiagnosticEngine w"
  shows "\<not> noise_spike_rule DiagnosticEngine w" "\<not> wideband_jammer_rule DiagnosticEngine w"
    "\<not> sync_loss_rule DiagnosticEngine w" "\<not> congestion_rule DiagnosticEngine w"
    "\<not> fading_rule DiagnosticEngine w"
proof -
  show "\<not> noise_spike_rule DiagnosticEngine w"
    using assms by (cases "snr_mean w") (auto simp: healthy_rule_def noise_spike_rule_def DiagnosticEngine_def jgt_def)
  show "\<not> wideband_jammer_rule DiagnosticEngine w"
    using assms by (cases "snr_mean w") (auto simp: healthy_rule_def wideband_jammer_rule_def DiagnosticEngine_def jgt_def)
  show "\<not> sync_loss_rule DiagnosticEngine w"
    using assms by (cases "ber_max w") (auto simp: healthy_rule_def sync_loss_rule_def DiagnosticEngine_def jgt_def)
  show "\<not> congestion_rule DiagnosticEngine w"
    using assms by (cases "latency_mean w") (auto simp: healthy_rule_def congestion_rule_def DiagnosticEngine_def jgt_def)
  show "\<not> fading_rule DiagnosticEngine w"
    using assms by (cases "snr_mean w") (auto simp: healthy_rule_def fading_rule_def DiagnosticEngine_def jgt_def)
qed

lemma Array_sort_single [simp]: "Array_sort cmp [x] = [x]"
  by (simp add: Array_sort_def)

lemma rank_single: "rank [(c, Fin 1)] = [(c, Fin 1)]"
  by (simp add: rank_def total_score_def Object_values_def Object_entries_def)

text \<open>
  Claim C10. When the healthy rule holds, none of the five fault rules holds, and the
  diagnosis is \<open>healthy\<close> with confidence exactly 1: the only evidence and the only
  ranked cause.
\<close>

theorem healthy_exclusive:
  assumes "healthy_rule DiagnosticEngine w"
  shows "\<not> noise_spike_rule DiagnosticEngine w \<and> \<not> wideband_jammer_rule DiagnosticEngine w \<and>
    \<not> sync_loss_rule DiagnosticEngine w \<and> \<not> congestion_rule DiagnosticEngine w \<and>
    \<not> fading_rule DiagnosticEngine w \<and>
    (\<exists>d. diagnose fmt DiagnosticEngine w = Inr d \<and> primary_cause d = HEALTHY \<and>
       confidence d = Fin 1 \<and> ranked_causes d = [(HEALTHY, Fin 1)] \<and>
       contributing_rules d = [healthy_evidence])"
proof -
  note ex = healthy_excludes [OF assms]
  have "rule_evidences DiagnosticEngine w = [healthy_evidence]"
    using assms ex by (simp add: rule_evidences_def)
  then have "with_fallbacks DiagnosticEngine w = ([(HEALTHY, Fin 1)], [healthy_evidence])"
    by (simp add: with_fallbacks_eq scored_def healthy_evidence_def)
  then show ?thesis
    using ex by (simp add: diagnose_def rank_single)
qed

theorem healthy_exclusive_witness:
  "healthy_rule DiagnosticEngine nominal_window \<and>
   \<not> sync_loss_rule DiagnosticEngine nominal_window \<and>
   (\<exists>d. diagnose no_format DiagnosticEngine nominal_window = Inr d \<and>
      primary_cause d = HEALTHY \<and> confidence d = Fin 1)"
proof -
  have h: "healthy_rule DiagnosticEngine nominal_window"
    by (simp add: healthy_rule_def DiagnosticEngine_def nominal_window_def jgt_def)
  from healthy_exclusive [OF h, of no_format] h show ?thesis by blast
qed

section \<open>The empty history\<close>

lemma windowFrom_empty:
  "windowFrom [] n = \<lparr>snr_mean = NaN, snr_std = NaN, ber_mean = NaN, ber_max = NaN,
     latency_mean = NaN, retries_mean = NaN\<rparr>"
  by (simp add: windowFrom_def slice_last_def mean_def std_def maxVal_def)

text \<open>
  Claim C2. On the window that \<open>windowFrom\<close> makes of an empty history every statistic is
  NaN, no rule predicate holds, and \<open>diagnose\<close> returns (it does not throw) the diagnosis
  \<open>unknown\<close> with confidence 1, its only evidence the fallback with score 1.
\<close>

theorem empty_history_unknown:
  "windowFrom [] n = \<lparr>snr_mean = NaN, snr_std = NaN, ber_mean = NaN, ber_max = NaN,
     latency_mean = NaN, retries_mean = NaN\<rparr> \<and>
   \<not> healthy_rule DiagnosticEngine (windowFrom [] n) \<and>
   \<not> noise_spike_rule DiagnosticEngine (windowFrom [] n) \<and>
   \<not> wideband_jammer_rule DiagnosticEngine (windowFrom [] n) \<and>
   \<not> sync_loss_rule DiagnosticEngine (windowFrom [] n) \<and>
   \<not> congestion_rule DiagnosticEngine (windowFrom [] n) \<and>
   \<not> fading_rule DiagnosticEngine (windowFrom [] n) \<and>
   (\<exists>d. diagnose fmt DiagnosticEngine (windowFrom [] n) = Inr d \<and>
      primary_cause d = UNKNOWN \<and> confidence d = Fin 1 \<and>
      ranked_causes d = [(UNKNOWN, Fin 1)] \<and> contributing_rules d = [unknown_evidence])"
proof -
  let ?w = "windowFrom [] n"
  have rules: "\<not> healthy_rule DiagnosticEngine ?w" "\<not> noise_spike_rule DiagnosticEngine ?w"
    "\<not> wideband_jammer_rule DiagnosticEngine ?w" "\<not> sync_loss_rule DiagnosticEngine ?w"
    "\<not> congestion_rule DiagnosticEngine ?w" "\<not> fading_rule DiagnosticEngine ?w"
    by (simp_all add: windowFrom_empty healthy_rule_def noise_spike_rule_def
        wideband_jammer_rule_def sync_loss_rule_def congestion_rule_def fading_rule_def
        jgt_def jge_def)
  then have "rule_evidences DiagnosticEngine ?w = []"
    by (simp add: rule_evidences_def)
  then have "with_fallbacks DiagnosticEngine ?w = ([(UNKNOWN, Fin 1)], [unknown_evidence])"
    by (simp add: with_fallbacks_eq)
  then have "\<exists>d. diagnose fmt DiagnosticEngine ?w = Inr d \<and>
      primary_cause d = UNKNOWN \<and> confidence d = Fin 1 \<and>
      ranked_causes d = [(UNKNOWN, Fin 1)] \<and> contributing_rules d = [unknown_evidence]"
    by (simp add: diagnose_def rank_single)
  with rules windowFrom_empty [of n] show ?thesis by blast
qed

section \<open>The second fallback\<close>

text \<open>
  Claim C5. The guard of the branch that would score \<open>healthy\<close> at 0.8 is false for every
  engine, window and evidence array, since it asks for the array to be falsy: after the
  fallbacks, the evidence of that branch is not among the evidences and \<open>healthy\<close> does not
  have the score 0.8.
\<close>

theorem healthy_fallback_unreachable:
  "\<not> healthy_fallback_guard e w evidences \<and>
   fallback_healthy_evidence \<notin> set (snd (with_fallbacks e w)) \<and>
   obj_get (fst (with_fallbacks e w)) HEALTHY \<noteq> Some (Fin (8 / 10))"
proof -
  have "fallback_healthy_evidence \<notin> set (rule_evidences e w)"
    by (auto simp: rule_evidences_def Let_def fallback_healthy_evidence_def healthy_evidence_def
        noise_spike_evidence_def wideband_jammer_evidence_def sync_loss_evidence_def
        congestion_evidence_def fading_evidence_def split: if_splits)
  moreover have "obj_get (map scored (rule_evidences e w)) HEALTHY \<noteq> Some (Fin (8 / 10))"
    by (simp add: rule_evidences_def Let_def scored_def healthy_evidence_def
        noise_spike_evidence_def wideband_jammer_evidence_def sync_loss_evidence_def
        congestion_evidence_def fading_evidence_def)
  ultimately show ?thesis
    by (simp add: healthy_fallback_guard_False with_fallbacks_eq fallback_healthy_evidence_def
        unknown_evidence_def)
qed

section \<open>Scores and evidence\<close>

lemma rule_evidences_eq:
  "rule_evidences e w =
     (if healthy_rule e w then [healthy_evidence] else []) @
     (if noise_spike_rule e w then [noise_spike_evidence e w] else []) @
     (if wideband_jammer_rule e w then [wideband_jammer_evidence e w] else []) @
     (if sync_loss_rule e w then [sync_loss_evidence e w] else []) @
     (if congestion_rule e w then [congestion_evidence e w] else []) @
     (if fading_rule e w then [fading_evidence e w] else [])"
  by (simp add: rule_evidences_def)

lemma evidence_causes [simp]:
  "root_cause healthy_evidence = HEALTHY"
  "root_cause (noise_spike_evidence e w) = NOISE_SPIKE"
  "root_cause (wideband_jammer_evidence e w) = WIDEBAND_JAMMER"
  "root_cause (sync_loss_evidence e w) = SYNC_LOSS"
  "root_cause (congestion_evidence e w) = CONGESTION"
  "root_cause (fading_evidence e w) = FADING"
  "root_cause unknown_evidence = UNKNOWN"
  "root_cause fallback_healthy_evidence = HEALTHY"
  by (simp_all add: healthy_evidence_def noise_spike_evidence_def wideband_jammer_evidence_def
      sync_loss_evidence_def congestion_evidence_def fading_evidence_def unknown_evidence_def
      fallback_healthy_evidence_def Let_def)

lemma noise_spike_filter:
  "filter (\<lambda>ev. root_cause ev = NOISE_SPIKE) (rule_evidences e w) =
     (if noise_spike_rule e w then [noise_spike_evidence e w] else [])"
  by (simp add: rule_evidences_eq)

lemma diagnose_result:
  obtains evs T c q rest where "well_scored evs" "T = sum_list (map (val \<circ> score) evs)" "0 < T"
    "with_fallbacks DiagnosticEngine w = (map scored evs, evs)"
    "Array_sort by_probability (map (share T) evs) = (c, q) # rest"
    "diagnose fmt DiagnosticEngine w =
      Inr \<lparr>primary_cause = c, confidence = q, ranked_causes = (c, q) # rest,
        diag_explanation = buildExplanation fmt c q w evs, contributing_rules = evs,
        suggested_actions = suggestActions c\<rparr>"
proof -
  obtain evs T where ws: "well_scored evs" and T: "T = sum_list (map (val \<circ> score) evs)"
    and Tpos: "0 < T" and wf: "with_fallbacks DiagnosticEngine w = (map scored evs, evs)"
    and rk: "rank (map scored evs) = Array_sort by_probability (map (share T) evs)"
    by (rule diagnose_ranked)
  have "Array_sort by_probability (map (share T) evs) \<noteq> []"
    using ws by (simp add: Array_sort_Nil_iff well_scored_def)
  then obtain c q rest where ranked: "Array_sort by_probability (map (share T) evs) = (c, q) # rest"
    by (cases "Array_sort by_probability (map (share T) evs)") auto
  have "diagnose fmt DiagnosticEngine w =
      Inr \<lparr>primary_cause = c, confidence = q, ranked_causes = (c, q) # rest,
        diag_explanation = buildExplanation fmt c q w evs, contributing_rules = evs,
        suggested_actions = suggestActions c\<rparr>"
    by (simp add: diagnose_def wf rk ranked)
  with ws T Tpos wf ranked show thesis by (rule that)
qed

lemma contributing_rules_eq:
  "\<exists>d. diagnose fmt DiagnosticEngine w = Inr d \<and>
     contributing_rules d = snd (with_fallbacks DiagnosticEngine w)"
proof -
  obtain evs T c q rest where "with_fallbacks DiagnosticEngine w = (map scored evs, evs)"
    "diagnose fmt DiagnosticEngine w =
      Inr \<lparr>primary_cause = c, confidence = q, ranked_causes = (c, q) # rest,
        diag_explanation = buildExplanation fmt c q w evs, contributing_rules = evs,
        suggested_actions = suggestActions c\<rparr>"
    by (rule diagnose_result)
  then show ?thesis by simp
qed

text \<open>
  Claim C7. Whenever the noise-spike rule holds, the score of the evidence it pushes is
  the spec's \<open>0.4 + 0.6 * clip((20 - snr_mean) / 10, 0, 1)\<close> with the clip on both sides,
  and that evidence is the one evidence for \<open>noise_spike\<close> in the diagnosis.
\<close>

theorem noise_spike_score_clip:
  assumes "noise_spike_rule DiagnosticEngine w"
  shows "score (noise_spike_evidence DiagnosticEngine w) = spec_noise_spike_score DiagnosticEngine w \<and>
    (\<exists>d. diagnose fmt DiagnosticEngine w = Inr d \<and>
       filter (\<lambda>ev. root_cause ev = NOISE_SPIKE) (contributing_rules d) =
         [noise_spike_evidence DiagnosticEngine w])"
proof -
  have "score (noise_spike_evidence DiagnosticEngine w) = spec_noise_spike_score DiagnosticEngine w"
    using assms
    by (cases "snr_mean w")
      (auto simp: noise_spike_rule_def noise_spike_evidence_def spec_noise_spike_score_def
        spec_clip_def DiagnosticEngine_def jsub_def Math_min_def Math_max_def jgt_def
        inf_of_sign_def Let_def)
  moreover have "rule_evidences DiagnosticEngine w \<noteq> []"
    using assms by (simp add: rule_evidences_eq)
  then have "snd (with_fallbacks DiagnosticEngine w) = rule_evidences DiagnosticEngine w"
    by (simp add: with_fallbacks_eq)
  with contributing_rules_eq [of fmt w] assms
  have "\<exists>d. diagnose fmt DiagnosticEngine w = Inr d \<and>
       filter (\<lambda>ev. root_cause ev = NOISE_SPIKE) (contributing_rules d) =
         [noise_spike_evidence DiagnosticEngine w]"
    by (auto simp: noise_spike_filter)
  ultimately show ?thesis by blast
qed

theorem noise_spike_score_clip_witness:
  "noise_spike_rule DiagnosticEngine spiky_window \<and>
   score (noise_spike_evidence DiagnosticEngine spiky_window) = Fin (7 / 10) \<and>
   spec_noise_spike_score DiagnosticEngine spiky_window = Fin (7 / 10)"
proof -
  have h: "noise_spike_rule DiagnosticEngine spiky_window"
    by (simp add: noise_spike_rule_def DiagnosticEngine_def spiky_window_def jgt_def)
  have "spec_noise_spike_score DiagnosticEngine spiky_window = Fin (7 / 10)"
    by (simp add: spec_noise_spike_score_def spec_clip_def DiagnosticEngine_def spiky_window_def
        jsub_def Math_min_def Math_max_def)
  with noise_spike_score_clip [OF h, of no_format] h show ?thesis by simp
qed

text \<open>
  Claim C9. For every window the evidence array that reaches the normalisation is not
  empty, each of its scores is greater than zero, the total that divides is a finite
  number greater than zero, and the confidence returned is greater than zero.
\<close>

theorem normalisation_divisor_positive:
  "\<exists>scores evidences T d p.
     with_fallbacks DiagnosticEngine w = (scores, evidences) \<and>
     evidences \<noteq> [] \<and> list_all (\<lambda>ev. jgt (score ev) (Fin 0)) evidences \<and>
     total_score scores = Fin T \<and> 0 < T \<and>
     diagnose fmt DiagnosticEngine w = Inr d \<and>
     confidence d = Fin p \<and> 0 < p"
proof -
  obtain evs T c q rest where ws: "well_scored evs" and T: "T = sum_list (map (val \<circ> score) evs)"
    and Tpos: "0 < T" and wf: "with_fallbacks DiagnosticEngine w = (map scored evs, evs)"
    and ranked: "Array_sort by_probability (map (share T) evs) = (c, q) # rest"
    and dg: "diagnose fmt DiagnosticEngine w =
      Inr \<lparr>primary_cause = c, confidence = q, ranked_causes = (c, q) # rest,
        diag_explanation = buildExplanation fmt c q w evs, contributing_rules = evs,
        suggested_actions = suggestActions c\<rparr>"
    by (rule diagnose_result)
  have "(c, q) \<in> set (Array_sort by_probability (map (share T) evs))"
    by (simp add: ranked)
  then have "(c, q) \<in> set (map (share T) evs)"
    by (simp only: set_Array_sort)
  from share_pos [OF ws Tpos this] obtain p where p: "q = Fin p" "0 < p" by auto
  have pos: "list_all (\<lambda>ev. jgt (score ev) (Fin 0)) evs"
    using ws by (auto simp: well_scored_def list_all_iff fin_pos_iff jgt_def)
  from wf ws pos p Tpos total_score_scored(1) [OF ws] T dg show ?thesis
    by (simp add: well_scored_def)
qed


section \<open>The simulator\<close>

subsection \<open>What the random primitives return\<close>



lemma until_nonzero_Some:
  "until_nonzero src = Some (u, src') \<Longrightarrow> \<exists>x. u = Fin x \<and> x \<noteq> 0 \<and> x \<in> set src \<and> set src' \<subseteq> set src"
  by (induction src) (auto simp: jeq_def split: if_splits)








subsection \<open>The parts of a step keep the metrics finite\<close>











lemma clip_fields:
  "l_snr (clip v) = Math_min (Math_max (l_snr v) (Fin (- 5))) (Fin 40)"
  "l_ber (clip v) = Math_min (Math_max (l_ber v) (Fin (1 / 10 ^ 9))) (Fin (5 / 10))"
  "l_latency (clip v) = Math_max (Fin 1) (l_latency v)"
  "l_retries (clip v) = Math_max (Fin 0) (Math_round (l_retries v))"
  "l_active_faults (clip v) = l_active_faults v"
  by (simp_all add: clip_def Let_def)


lemma step_SomeE:
  assumes "step sim src = Some (smp, sim', src')"
  obtains v0 s0 v1 s1 v2 s2 v3 s3 v4 s4 v5 where
    "sim' = sim\<lparr>sim_t := jadd (sim_t sim) (Fin 1)\<rparr>"
    "base_metrics (sim\<lparr>sim_t := jadd (sim_t sim) (Fin 1)\<rparr>) src = Some (v0, s0)"
    "noise_spike_part (fault_config sim) v0 s0 = Some (v1, s1)"
    "jammer_part (fault_config sim) v1 s1 = Some (v2, s2)"
    "sync_loss_part (sim\<lparr>sim_t := jadd (sim_t sim) (Fin 1)\<rparr>) (fault_config sim) v2 s2 = Some (v3, s3)"
    "congestion_part (fault_config sim) v3 s3 = Some (v4, s4)"
    "fading_part (fault_config sim) v4 s4 = Some (v5, src')"
    "smp = \<lparr>t = jadd (sim_t sim) (Fin 1), snr_db = l_snr (clip v5), ber = l_ber (clip v5),
       latency_ms = l_latency (clip v5), retries = l_retries (clip v5),
       active_faults = l_active_faults (clip v5)\<rparr>"
  using assms
  by (auto simp: step_def Let_def split: bind_splits)

lemma started_step:
  "(started n cfg)\<lparr>sim_t := jadd (sim_t (started n cfg)) (Fin 1)\<rparr> =
     CommLinkSimulator\<lparr>sim_t := jadd n (Fin 1), fault_config := cfg\<rparr>"
  "fault_config (started n cfg) = cfg"
  by (simp_all add: started_def setFaultConfig_def)

lemma started_closed:
  "CommLinkSimulator = started (Fin 0) FaultConfig"
  "setFaultConfig (started n cfg) cfg' = started n cfg'"
  "step (started n cfg) src = Some (smp, sim', src') \<Longrightarrow>
     sim' = started (jadd n (Fin 1)) cfg \<and> t smp = jadd n (Fin 1)"
  by (auto simp: started_def setFaultConfig_def CommLinkSimulator_def elim!: step_SomeE)

subsection \<open>Skipped parts and the shape of a step\<close>

lemma step_eq:
  "step sim src =
     base_metrics (sim\<lparr>sim_t := jadd (sim_t sim) (Fin 1)\<rparr>) src \<bind> (\<lambda>(v, src).
     noise_spike_part (fault_config sim) v src \<bind> (\<lambda>(v, src).
     jammer_part (fault_config sim) v src \<bind> (\<lambda>(v, src).
     sync_loss_part (sim\<lparr>sim_t := jadd (sim_t sim) (Fin 1)\<rparr>) (fault_config sim) v src \<bind> (\<lambda>(v, src).
     congestion_part (fault_config sim) v src \<bind> (\<lambda>(v, src).
     fading_part (fault_config sim) v src \<bind> (\<lambda>(v, src).
     Some (\<lparr>t = jadd (sim_t sim) (Fin 1), snr_db = l_snr (clip v), ber = l_ber (clip v),
             latency_ms = l_latency (clip v), retries = l_retries (clip v),
             active_faults = l_active_faults (clip v)\<rparr>,
           sim\<lparr>sim_t := jadd (sim_t sim) (Fin 1)\<rparr>, src)))))))"
  by (simp add: step_def Let_def)

lemma started_update:
  "(started n cfg)\<lparr>sim_t := m\<rparr> = CommLinkSimulator\<lparr>sim_t := m, fault_config := cfg\<rparr>"
  "sim_t (started n cfg) = n"
  by (simp_all add: started_def setFaultConfig_def)

lemma noise_spike_part_skip:
  "\<not> jgt (noise_spike_level cfg) (Fin 0) \<Longrightarrow> noise_spike_part cfg v src = Some (v, src)"
  by (simp add: noise_spike_part_def)

lemma jammer_part_skip:
  "\<not> jgt (jammer_level cfg) (Fin 0) \<Longrightarrow> jammer_part cfg v src = Some (v, src)"
  by (simp add: jammer_part_def)

lemma sync_loss_part_skip:
  "\<not> jgt (sync_loss_prob cfg) (Fin 0) \<Longrightarrow>
   sync_loss_part sim cfg v src = Some (v\<lparr>l_sync_outage := False\<rparr>, src)"
  by (simp add: sync_loss_part_def sync_loss_trial_def)

lemma congestion_part_skip:
  "\<not> jgt (congestion_level cfg) (Fin 0) \<or> l_sync_outage v \<Longrightarrow>
   congestion_part cfg v src = Some (v, src)"
  by (auto simp: congestion_part_def)

lemma fading_part_skip:
  "\<not> jgt (fading_severity cfg) (Fin 0) \<or> l_sync_outage v \<Longrightarrow>
   fading_part cfg v src = Some (v, src)"
  by (auto simp: fading_part_def)

lemma randn_subset: "randn src = Some (g, src') \<Longrightarrow> set src' \<subseteq> set src"
  by (auto simp: randn_def split: bind_splits dest!: until_nonzero_Some; blast)

lemma base_metrics_Some:
  "base_metrics sim src = Some (v, src') \<Longrightarrow> set src' \<subseteq> set src \<and> l_active_faults v = []"
  by (auto simp: base_metrics_def Let_def split: bind_splits dest!: randn_subset; blast)





lemma calm_step:
  assumes "noise_spike_level cfg = Fin 0" "jammer_level cfg = Fin 0" "sync_loss_prob cfg = Fin 0"
    "congestion_level cfg = Fin 0" "fading_severity cfg = Fin 0"
  shows "step (started n cfg) src =
    map_option (\<lambda>(v, src'). (\<lparr>t = jadd n (Fin 1), snr_db = l_snr (clip v), ber = l_ber (clip v),
       latency_ms = l_latency (clip v), retries = l_retries (clip v),
       active_faults = l_active_faults v\<rparr>,
       CommLinkSimulator\<lparr>sim_t := jadd n (Fin 1), fault_config := cfg\<rparr>, src'))
     (base_metrics (CommLinkSimulator\<lparr>sim_t := jadd n (Fin 1), fault_config := cfg\<rparr>) src)"
proof -
  have skip: "\<not> jgt (noise_spike_level cfg) (Fin 0)" "\<not> jgt (jammer_level cfg) (Fin 0)"
    "\<not> jgt (sync_loss_prob cfg) (Fin 0)" "\<not> jgt (congestion_level cfg) (Fin 0)"
    "\<not> jgt (fading_severity cfg) (Fin 0)"
    using assms by (simp_all add: jgt_def)
  show ?thesis
    by (cases "base_metrics (CommLinkSimulator\<lparr>sim_t := jadd n (Fin 1), fault_config := cfg\<rparr>) src")
      (auto simp: step_eq started_step started_update noise_spike_part_skip jammer_part_skip
        sync_loss_part_skip congestion_part_skip fading_part_skip skip clip_fields)
qed

subsection \<open>Enough draws make a step return\<close>




lemma until_nonzero_returns:
  "0 \<notin> set src \<Longrightarrow> 1 \<le> length src \<Longrightarrow>
   \<exists>u src'. until_nonzero src = Some (u, src') \<and> set src' \<subseteq> set src \<and> length src \<le> length src' + 1"
  by (cases src) (auto simp: jeq_def)

lemma randn_returns:
  assumes "0 \<notin> set src" "2 \<le> length src"
  shows "\<exists>g src'. randn src = Some (g, src') \<and> set src' \<subseteq> set src \<and> length src \<le> length src' + 2"
proof -
  from until_nonzero_returns [of src] assms obtain u s1 where
    u: "until_nonzero src = Some (u, s1)" "set s1 \<subseteq> set src" "length src \<le> length s1 + 1"
    by auto
  then have "0 \<notin> set s1" "1 \<le> length s1" using assms by auto
  from until_nonzero_returns [OF this] obtain v s2 where
    v: "until_nonzero s1 = Some (v, s2)" "set s2 \<subseteq> set s1" "length s1 \<le> length s2 + 1"
    by auto
  with u show ?thesis by (auto simp: randn_def)
qed

lemma base_metrics_returns:
  assumes "0 \<notin> set src" "6 \<le> length src"
  shows "base_metrics sim src \<noteq> None"
proof -
  from randn_returns [OF assms(1)] assms(2) obtain g1 s1 where
    r1: "randn src = Some (g1, s1)" "set s1 \<subseteq> set src" "length src \<le> length s1 + 2"
    by auto
  then have "0 \<notin> set s1" "2 \<le> length s1" using assms by auto
  from randn_returns [OF this] obtain g2 s2 where
    r2: "randn s1 = Some (g2, s2)" "set s2 \<subseteq> set s1" "length s1 \<le> length s2 + 2"
    by auto
  then have "0 \<notin> set s2" "2 \<le> length s2" using assms r1 by auto
  from randn_returns [OF this] obtain g3 s3 where "randn s2 = Some (g3, s3)"
    by auto
  with r1 r2 show ?thesis by (simp add: base_metrics_def)
qed

















subsection \<open>Steps on concrete sources\<close>









subsection \<open>The claims about \<open>step\<close>\<close>






text \<open>
  Claim C8. With the five levels at exactly 0, every sample that \<open>step\<close> returns has no
  active fault, whatever the source of draws; and \<open>step\<close> does return as soon as the
  source holds six draws, none of them zero.
\<close>

theorem zero_levels_no_faults:
  assumes "noise_spike_level cfg = Fin 0" "jammer_level cfg = Fin 0" "sync_loss_prob cfg = Fin 0"
    "congestion_level cfg = Fin 0" "fading_severity cfg = Fin 0"
  shows "(\<forall>smp sim' src'. step (started n cfg) src = Some (smp, sim', src') \<longrightarrow>
      active_faults smp = []) \<and>
    (6 \<le> length src \<and> 0 \<notin> set src \<longrightarrow> step (started n cfg) src \<noteq> None)"
proof -
  let ?sim = "CommLinkSimulator\<lparr>sim_t := jadd n (Fin 1), fault_config := cfg\<rparr>"
  have "active_faults smp = []" if "step (started n cfg) src = Some (smp, sim', src')"
    for smp sim' src'
    using that base_metrics_Some [of ?sim src]
    by (auto simp: calm_step [OF assms])
  moreover have "step (started n cfg) src \<noteq> None" if "6 \<le> length src \<and> 0 \<notin> set src"
    using that base_metrics_returns [of src ?sim] by (simp add: calm_step [OF assms])
  ultimately show ?thesis by blast
qed

theorem zero_levels_no_faults_witness:
  "\<exists>smp sim' src'. step (started (Fin 0) FaultConfig) calm_source = Some (smp, sim', src') \<and>
     active_faults smp = []"
proof -
  have "6 \<le> length calm_source \<and> 0 \<notin> set calm_source" by (simp add: calm_source_def)
  with zero_levels_no_faults [of FaultConfig "Fin 0" calm_source] show ?thesis
    by (fastforce simp: FaultConfig_def)
qed

end
